theory Spec2Isabelle
  imports Main "HOL-Library.Multiset" "HOL-Library.Sublist"
begin

section \<open>Data model\<close>

text \<open>
  The dataclasses of \<^verbatim>\<open>gmail_client.py\<close> and \<^verbatim>\<open>email_clusterer.py\<close>.
  Python's \<^verbatim>\<open>str\<close> is modelled as \<^typ>\<open>string\<close>, one \<^typ>\<open>char\<close> per code point
  (code points below 256); a \<^verbatim>\<open>datetime\<close> as a number of seconds.
\<close>

type_synonym datetime = int

record EmailMessage =
  uid :: string
  subject :: string
  sender :: string
  date :: datetime
  body_preview :: string
  has_attachments :: bool

record EmailCluster =
  cluster_id :: int
  name :: string
  description :: string
  emails :: "EmailMessage list"
  keywords' :: "string list"

section \<open>String helpers of the Python runtime\<close>

text \<open>\<^verbatim>\<open>str(n)\<close> for a length \<open>n\<close>, as the f-strings of the source render it.\<close>

definition digit_char :: "nat \<Rightarrow> char" where
  "digit_char d = ''0123456789'' ! d"

fun str_nat :: "nat \<Rightarrow> string" where
  "str_nat n = (if n < 10 then [digit_char n] else str_nat (n div 10) @ [digit_char (n mod 10)])"

declare str_nat.simps [simp del]

text \<open>
  The class \<^verbatim>\<open>\s\<close> of a \<^verbatim>\<open>str\<close> pattern, on the code points below 256:
  9 to 13, 28 to 32, 133 and 160.
\<close>

definition is_space :: "char \<Rightarrow> bool" where
  "is_space c = (c \<in> set [CHR 0x09, CHR 0x0A, CHR 0x0B, CHR 0x0C, CHR 0x0D,
                          CHR 0x1C, CHR 0x1D, CHR 0x1E, CHR 0x1F, CHR 0x20,
                          CHR 0x85, CHR 0xA0])"

text \<open>The character class \<^verbatim>\<open>[^>\s]\<close>.\<close>

definition domain_char :: "char \<Rightarrow> bool" where
  "domain_char c = (c \<noteq> CHR ''>'' \<and> \<not> is_space c)"

text \<open>
  \<^verbatim>\<open>s.replace(old, new)\<close>: the occurrences of \<open>old\<close> are replaced from the left, without
  overlap. An empty \<open>old\<close> matches before every character and at the end.
\<close>

function replace_from :: "string \<Rightarrow> string \<Rightarrow> string \<Rightarrow> string" where
  "replace_from old new [] = []"
| "replace_from old new (c # cs) =
     (if old \<noteq> [] \<and> prefix old (c # cs)
      then new @ replace_from old new (drop (length old) (c # cs))
      else c # replace_from old new cs)"
  by pat_completeness auto
termination
  by (relation "measure (\<lambda>(old, new, s). length s)") (auto simp: neq_Nil_conv)

definition replace :: "string \<Rightarrow> string \<Rightarrow> string \<Rightarrow> string" where
  "replace s old new =
     (if old = [] then new @ concat (map (\<lambda>c. c # new) s) else replace_from old new s)"

text \<open>
  \<^verbatim>\<open>s.title()\<close>: a cased character is upper-cased when the character before it is not
  cased and lower-cased otherwise. The cased characters are the ASCII letters here;
  every other character is kept and counts as uncased.
\<close>

definition ascii_lower :: string where
  "ascii_lower = ''abcdefghijklmnopqrstuvwxyz''"

definition ascii_upper :: string where
  "ascii_upper = ''ABCDEFGHIJKLMNOPQRSTUVWXYZ''"

definition is_cased :: "char \<Rightarrow> bool" where
  "is_cased c = (c \<in> set ascii_lower \<or> c \<in> set ascii_upper)"

definition to_upper :: "char \<Rightarrow> char" where
  "to_upper c = (case map_of (zip ascii_lower ascii_upper) c of Some u \<Rightarrow> u | None \<Rightarrow> c)"

definition to_lower :: "char \<Rightarrow> char" where
  "to_lower c = (case map_of (zip ascii_upper ascii_lower) c of Some l \<Rightarrow> l | None \<Rightarrow> c)"

fun title_from :: "bool \<Rightarrow> string \<Rightarrow> string" where
  "title_from previous_is_cased [] = []"
| "title_from previous_is_cased (c # cs) =
     (if is_cased c
      then (if previous_is_cased then to_lower c else to_upper c) # title_from True cs
      else c # title_from False cs)"

definition title :: "string \<Rightarrow> string" where
  "title s = title_from False s"

section \<open>The clusterer (\<^verbatim>\<open>email_clusterer.py\<close>)\<close>

text \<open>
  \<^verbatim>\<open>_extract_domain\<close>: \<^verbatim>\<open>re.search(r'@([^>\s]+)', sender)\<close> finds the leftmost \<^verbatim>\<open>@\<close>
  that is followed by at least one character of the class and captures the longest
  run of such characters; without a match the result is the empty string.
\<close>

fun extract_domain :: "string \<Rightarrow> string" where
  "extract_domain [] = []"
| "extract_domain (c # cs) =
     (if c = CHR ''@'' \<and> takeWhile domain_char cs \<noteq> []
      then takeWhile domain_char cs
      else extract_domain cs)"

text \<open>\<^verbatim>\<open>_create_single_cluster\<close>.\<close>

definition create_single_cluster :: "EmailMessage list \<Rightarrow> EmailCluster" where
  "create_single_cluster es =
     \<lparr>cluster_id = 0,
      name = ''All Messages ('' @ str_nat (length es) @ '')'',
      description = ''All '' @ str_nat (length es) @ '' recent emails'',
      emails = es,
      keywords' = []\<rparr>"

text \<open>
  The dictionary \<^verbatim>\<open>domain_groups\<close> keeps its keys in insertion order, so it is an
  association list. \<open>group_append\<close> is the body of the first loop of
  \<^verbatim>\<open>_rule_based_clustering\<close>: a new key is added at the end with an empty list, then the
  message is appended to the list of its key.
\<close>

fun group_append :: "string \<Rightarrow> EmailMessage \<Rightarrow> (string \<times> EmailMessage list) list
    \<Rightarrow> (string \<times> EmailMessage list) list" where
  "group_append d e [] = [(d, [e])]"
| "group_append d e ((k, v) # rest) =
     (if k = d then (k, v @ [e]) # rest else (k, v) # group_append d e rest)"

definition domain_groups :: "EmailMessage list \<Rightarrow> (string \<times> EmailMessage list) list" where
  "domain_groups es = foldl (\<lambda>groups e. group_append (extract_domain (sender e)) e groups) [] es"

text \<open>
  The second loop of \<^verbatim>\<open>_rule_based_clustering\<close>, over \<^verbatim>\<open>domain_groups.items()\<close>, with
  the running \<^verbatim>\<open>cluster_id\<close>; \<open>m\<close> is \<^verbatim>\<open>self.min_cluster_size\<close>.
\<close>

definition domain_cluster :: "int \<Rightarrow> string \<Rightarrow> EmailMessage list \<Rightarrow> EmailCluster" where
  "domain_cluster cid d domain_emails =
     \<lparr>cluster_id = cid,
      name = title (replace (replace d ''.com'' '''') ''www.'' '''')
               @ '' ('' @ str_nat (length domain_emails) @ '')'',
      description = ''Emails from '' @ d,
      emails = domain_emails,
      keywords' = []\<rparr>"

fun make_clusters :: "int \<Rightarrow> int \<Rightarrow> (string \<times> EmailMessage list) list \<Rightarrow> EmailCluster list" where
  "make_clusters m cid [] = []"
| "make_clusters m cid ((d, domain_emails) # rest) =
     (if int (length domain_emails) \<ge> m
      then domain_cluster cid d domain_emails # make_clusters m (cid + 1) rest
      else make_clusters m cid rest)"

definition rule_based_clustering :: "int \<Rightarrow> EmailMessage list \<Rightarrow> EmailCluster list" where
  "rule_based_clustering m es =
     (let clusters = make_clusters m 0 (domain_groups es)
      in if clusters \<noteq> [] then clusters else [create_single_cluster es])"

text \<open>\<^verbatim>\<open>cluster_emails\<close>; the third argument is \<^verbatim>\<open>num_clusters\<close>.\<close>

definition cluster_emails :: "int \<Rightarrow> EmailMessage list \<Rightarrow> int \<Rightarrow> EmailCluster list" where
  "cluster_emails m es num_clusters =
     (if int (length es) < m then [create_single_cluster es] else rule_based_clustering m es)"

text \<open>Notions the properties are stated with.\<close>

definition members :: "EmailCluster list \<Rightarrow> EmailMessage list" where
  "members cs = concat (map emails cs)"

definition sender_domain :: "EmailMessage \<Rightarrow> string" where
  "sender_domain e = extract_domain (sender e)"

definition domain_count :: "EmailMessage list \<Rightarrow> string \<Rightarrow> nat" where
  "domain_count es d = length (filter (\<lambda>e. sender_domain e = d) es)"

definition reaches_threshold :: "int \<Rightarrow> EmailMessage list \<Rightarrow> EmailMessage \<Rightarrow> bool" where
  "reaches_threshold m es e = (m \<le> int (domain_count es (sender_domain e)))"

definition some_group_reaches :: "int \<Rightarrow> EmailMessage list \<Rightarrow> bool" where
  "some_group_reaches m es = list_ex (reaches_threshold m es) es"

definition empty_domain_group :: "EmailMessage list \<Rightarrow> EmailMessage list" where
  "empty_domain_group es = filter (\<lambda>e. sender_domain e = []) es"

text \<open>Sample messages: a message with the given identifier and sender.\<close>

definition msg :: "string \<Rightarrow> string \<Rightarrow> EmailMessage" where
  "msg u s = \<lparr>uid = u, subject = ''hello'', sender = s, date = 0,
             body_preview = '''', has_attachments = False\<rparr>"

definition inbox4 :: "EmailMessage list" where
  "inbox4 = [msg ''1'' ''a@x.com'', msg ''2'' ''b@x.com'', msg ''3'' ''c@x.com'',
             msg ''4'' ''d@y.com'']"

section \<open>The Gmail client (\<^verbatim>\<open>gmail_client.py\<close>)\<close>

text \<open>Exceptions are values; each carries its message, which \<^verbatim>\<open>str(e)\<close> reads.\<close>

datatype py_exception =
    LookupError string
  | HeaderParseError string
  | RuntimeError string
  | OtherError string

fun exc_message :: "py_exception \<Rightarrow> string" where
  "exc_message (LookupError s) = s"
| "exc_message (HeaderParseError s) = s"
| "exc_message (RuntimeError s) = s"
| "exc_message (OtherError s) = s"

subsection \<open>Header decoding\<close>

text \<open>
  \<^verbatim>\<open>_decode_header\<close> calls two functions of the Python standard library:
  \<^verbatim>\<open>email.header.decode_header\<close>, which returns a list of pairs of a part (\<^verbatim>\<open>bytes\<close> or
  \<^verbatim>\<open>str\<close>) and a charset (or \<^verbatim>\<open>None\<close>) or raises, and \<^verbatim>\<open>bytes.decode(charset,
  errors="ignore")\<close>, which returns text or raises. They are parameters of the model.
\<close>

type_synonym bytes = "char list"

datatype header_part = BytesPart bytes | StrPart string

record email_library =
  lib_decode_header :: "string \<Rightarrow> py_exception + (header_part \<times> string option) list"
  lib_decode :: "string \<Rightarrow> bytes \<Rightarrow> py_exception + string"

text \<open>The loop over \<^verbatim>\<open>decoded_parts\<close>; \<^verbatim>\<open>encoding or "utf-8"\<close> replaces \<^verbatim>\<open>None\<close> and the
  empty string.\<close>

fun decode_parts :: "(string \<Rightarrow> bytes \<Rightarrow> py_exception + string) \<Rightarrow> string
    \<Rightarrow> (header_part \<times> string option) list \<Rightarrow> py_exception + string" where
  "decode_parts dec decoded_string [] = Inr decoded_string"
| "decode_parts dec decoded_string ((part, encoding) # rest) =
     (case part of
        BytesPart b \<Rightarrow>
          (case dec (case encoding of
                       None \<Rightarrow> ''utf-8''
                     | Some enc \<Rightarrow> if enc = [] then ''utf-8'' else enc) b of
             Inl e \<Rightarrow> Inl e
           | Inr s \<Rightarrow> decode_parts dec (decoded_string @ s) rest)
      | StrPart s \<Rightarrow> decode_parts dec (decoded_string @ s) rest)"

text \<open>\<^verbatim>\<open>_decode_header\<close>: no exception of the library is caught.\<close>

definition decode_header :: "email_library \<Rightarrow> string \<Rightarrow> py_exception + string" where
  "decode_header lib header =
     (if header = [] then Inr []
      else case lib_decode_header lib header of
             Inl e \<Rightarrow> Inl e
           | Inr decoded_parts \<Rightarrow> decode_parts (lib_decode lib) [] decoded_parts)"

text \<open>
  A library that behaves as CPython does on the header \<^verbatim>\<open>=?foo?q?abc?=\<close>:
  \<^verbatim>\<open>decode_header\<close> answers \<^verbatim>\<open>[(b'abc', 'foo')]\<close>, and \<^verbatim>\<open>b'abc'.decode('foo',
  errors='ignore')\<close> raises \<^verbatim>\<open>LookupError\<close>, since \<^verbatim>\<open>errors\<close> governs undecodable bytes
  only, not an unknown charset. Every other header is taken as plain text here.
\<close>

definition sample_library :: email_library where
  "sample_library =
     \<lparr>lib_decode_header =
        (\<lambda>h. if h = ''=?foo?q?abc?='' then Inr [(BytesPart ''abc'', Some ''foo'')]
             else Inr [(StrPart h, None)]),
      lib_decode =
        (\<lambda>charset b. if charset = ''utf-8'' then Inr b
                      else Inl (LookupError (''unknown encoding: '' @ charset)))\<rparr>"

subsection \<open>Fetching the recent messages\<close>

text \<open>The slice \<^verbatim>\<open>xs[i:]\<close>: a negative start counts from the end, and the start is clamped
  to the list.\<close>

definition slice_from :: "int \<Rightarrow> 'a list \<Rightarrow> 'a list" where
  "slice_from i xs =
     (let n = int (length xs);
          start = (if i < 0 then max (i + n) 0 else min i n)
      in drop (nat start) xs)"

text \<open>\<^verbatim>\<open>recent_messages = message_list[-count:] if len(message_list) > count else message_list\<close>.\<close>

definition recent_messages :: "int \<Rightarrow> 'a list \<Rightarrow> 'a list" where
  "recent_messages count' message_list =
     (if int (length message_list) > count' then slice_from (- count') message_list
      else message_list)"

text \<open>The references in the order the loop visits them: \<^verbatim>\<open>reversed(recent_messages)\<close>.\<close>

definition recent_refs :: "int \<Rightarrow> 'a list \<Rightarrow> 'a list" where
  "recent_refs count' message_list = rev (recent_messages count' message_list)"

text \<open>
  One round of the loop fetches a payload and parses it. The server and the parser are a
  parameter: for a message number they give no data (the round is skipped), raise, or
  give the parsed message, whose \<^verbatim>\<open>uid\<close> the loop sets to the message number.
\<close>

datatype fetch_result = NoData | Raises py_exception | Parsed EmailMessage

fun fetch_loop :: "(string \<Rightarrow> fetch_result) \<Rightarrow> string list \<Rightarrow> py_exception + EmailMessage list" where
  "fetch_loop fetch [] = Inr []"
| "fetch_loop fetch (num # nums) =
     (case fetch num of
        NoData \<Rightarrow> fetch_loop fetch nums
      | Raises e \<Rightarrow> Inl e
      | Parsed e \<Rightarrow>
          (case fetch_loop fetch nums of
             Inl err \<Rightarrow> Inl err
           | Inr es \<Rightarrow> Inr (e\<lparr>uid := num\<rparr> # es)))"

text \<open>
  The connection is modelled by the commands sent over it. The client keeps it in
  \<^verbatim>\<open>self.connection\<close>, which is \<^verbatim>\<open>None\<close> before \<^verbatim>\<open>connect\<close>.
\<close>

datatype imap_command = StoreImportantLabel string | StoreDeletedFlag string | Expunge

record imap_connection =
  sent :: "imap_command list"

record GmailClient =
  email_address :: string
  app_password :: string
  connection :: "imap_connection option"

text \<open>\<^verbatim>\<open>fetch_recent_emails\<close>; \<open>message_list\<close> is the server's answer to the search.\<close>

definition fetch_recent_emails :: "(string \<Rightarrow> fetch_result) \<Rightarrow> string list \<Rightarrow> GmailClient \<Rightarrow> int
    \<Rightarrow> py_exception + EmailMessage list" where
  "fetch_recent_emails fetch message_list client count' =
     (case connection client of
        None \<Rightarrow> Inl (RuntimeError ''Not connected to Gmail'')
      | Some conn \<Rightarrow>
          (case fetch_loop fetch (recent_refs count' message_list) of
             Inl e \<Rightarrow> Inl (RuntimeError (''Failed to fetch emails: '' @ exc_message e))
           | Inr es \<Rightarrow> Inr es))"

text \<open>A server and parser that give a message for every message number.\<close>

definition sample_fetch :: "string \<Rightarrow> fetch_result" where
  "sample_fetch num = Parsed (msg [] ''a@x.com'')"

definition connected_client :: GmailClient where
  "connected_client =
     \<lparr>email_address = ''me@gmail.com'', app_password = ''secret'',
      connection = Some \<lparr>sent = []\<rparr>\<rparr>"

subsection \<open>Archiving\<close>

text \<open>
  \<^verbatim>\<open>archive_emails\<close> stores a label and a flag for each identifier, then expunges. The
  server is a parameter: for a command it gives \<open>None\<close> when the command goes through and
  the error's message when the library raises. The commands sent before a failure stay
  sent.
\<close>

definition archive_commands :: "string list \<Rightarrow> imap_command list" where
  "archive_commands email_uids =
     concat (map (\<lambda>u. [StoreImportantLabel u, StoreDeletedFlag u]) email_uids) @ [Expunge]"

fun send_commands :: "(imap_command \<Rightarrow> string option) \<Rightarrow> imap_connection \<Rightarrow> imap_command list
    \<Rightarrow> imap_connection \<times> py_exception option" where
  "send_commands server conn [] = (conn, None)"
| "send_commands server conn (c # cs) =
     (case server c of
        Some err \<Rightarrow> (conn, Some (OtherError err))
      | None \<Rightarrow> send_commands server (conn\<lparr>sent := sent conn @ [c]\<rparr>) cs)"

definition archive_emails :: "(imap_command \<Rightarrow> string option) \<Rightarrow> GmailClient \<Rightarrow> string list
    \<Rightarrow> GmailClient \<times> py_exception option" where
  "archive_emails server client email_uids =
     (case connection client of
        None \<Rightarrow> (client, Some (RuntimeError ''Not connected to Gmail''))
      | Some conn \<Rightarrow>
          (case send_commands server conn (archive_commands email_uids) of
             (conn', None) \<Rightarrow> (client\<lparr>connection := Some conn'\<rparr>, None)
           | (conn', Some e) \<Rightarrow>
               (client\<lparr>connection := Some conn'\<rparr>,
                Some (RuntimeError (''Failed to archive emails: '' @ exc_message e)))))"

section \<open>The web application (\<^verbatim>\<open>web_app.py\<close>)\<close>

text \<open>
  The module's globals \<^verbatim>\<open>current_clusters\<close> and \<^verbatim>\<open>current_gmail_client\<close> are the state.
  A response is the JSON body with its status: \<open>Success\<close> is
  \<^verbatim>\<open>{"success": True, "message": ...}\<close> with status 200, \<open>Error\<close> is \<^verbatim>\<open>{"error": ...}\<close>
  with the given status.
\<close>

record app_state =
  current_clusters :: "EmailCluster list"
  current_gmail_client :: "GmailClient option"

datatype response = Success string | Error nat string

text \<open>
  \<^verbatim>\<open>archive_cluster\<close>, from the point where the request's \<^verbatim>\<open>cluster_id\<close> has been read as
  an integer. The lookup loop takes the first cluster with the identifier.
\<close>

definition archive_cluster :: "(imap_command \<Rightarrow> string option) \<Rightarrow> int \<Rightarrow> app_state
    \<Rightarrow> response \<times> app_state" where
  "archive_cluster server cid st =
     (case current_gmail_client st of
        None \<Rightarrow> (Error 400 ''Not connected to Gmail'', st)
      | Some client \<Rightarrow>
          (case find (\<lambda>c. cluster_id c = cid) (current_clusters st) of
             None \<Rightarrow> (Error 404 ''Cluster not found'', st)
           | Some target_cluster \<Rightarrow>
               (let email_uids = map uid (emails target_cluster)
                in case archive_emails server client email_uids of
                     (client', Some e) \<Rightarrow>
                       (Error 500 (exc_message e), st\<lparr>current_gmail_client := Some client'\<rparr>)
                   | (client', None) \<Rightarrow>
                       (Success (''Archived '' @ str_nat (length email_uids) @ '' emails from ''
                                 @ [CHR 0x27] @ name target_cluster @ [CHR 0x27]),
                        st\<lparr>current_gmail_client := Some client',
                           current_clusters :=
                             filter (\<lambda>c. cluster_id c \<noteq> cid) (current_clusters st)\<rparr>))))"

text \<open>Sample states: three clusters, with and without a connected client.\<close>

definition sample_clusters :: "EmailCluster list" where
  "sample_clusters =
     [domain_cluster 0 ''x.com'' [msg ''1'' ''a@x.com'', msg ''2'' ''b@x.com'', msg ''3'' ''c@x.com''],
      domain_cluster 1 ''y.org'' [msg ''4'' ''d@y.org'', msg ''5'' ''e@y.org'', msg ''6'' ''f@y.org''],
      domain_cluster 2 ''z.net'' [msg ''7'' ''g@z.net'', msg ''8'' ''h@z.net'', msg ''9'' ''i@z.net'']]"

definition connected_state :: app_state where
  "connected_state = \<lparr>current_clusters = sample_clusters, current_gmail_client = Some connected_client\<rparr>"

definition demo_state :: app_state where
  "demo_state = \<lparr>current_clusters = sample_clusters, current_gmail_client = None\<rparr>"

text \<open>A server that accepts every command.\<close>

definition accepting_server :: "imap_command \<Rightarrow> string option" where
  "accepting_server c = None"

definition inbox5 :: "EmailMessage list" where
  "inbox5 = [msg ''1'' ''a@x.com'', msg ''2'' ''d@y.org'', msg ''3'' ''b@x.com'',
             msg ''4'' ''e@y.org'', msg ''5'' ''f@z.net'']"

definition local_inbox :: "EmailMessage list" where
  "local_inbox = [msg ''1'' ''Mailer Daemon'', msg ''2'' ''postmaster'', msg ''3'' ''root'',
                  msg ''4'' ''a@x.com'']"

section \<open>Properties of the clusterer\<close>

subsection \<open>The grouping dictionary\<close>

lemma group_append_old_key:
  "d \<in> set (map fst g) \<Longrightarrow> map fst (group_append d e g) = map fst g"
  by (induction g) force+

lemma group_append_new_key:
  "d \<notin> set (map fst g) \<Longrightarrow> map fst (group_append d e g) = map fst g @ [d]"
  by (induction g) auto

lemma group_append_keys:
  "map fst (group_append d e g) =
     (if d \<in> set (map fst g) then map fst g else map fst g @ [d])"
  by (simp add: group_append_old_key group_append_new_key)

lemma map_of_group_append:
  "map_of (group_append d e g) =
     (map_of g)(d \<mapsto> (case map_of g d of None \<Rightarrow> [e] | Some v \<Rightarrow> v @ [e]))"
  by (induction g) auto

lemma domain_groups_snoc:
  "domain_groups (es @ [e]) = group_append (sender_domain e) e (domain_groups es)"
  by (simp add: domain_groups_def sender_domain_def)

lemma domain_groups_keys: "set (map fst (domain_groups es)) = sender_domain ` set es"
proof (induction es rule: rev_induct)
  case Nil
  show ?case by (simp add: domain_groups_def)
next
  case (snoc e es)
  then show ?case
    by (auto simp: domain_groups_snoc group_append_keys)
qed

lemma distinct_domain_groups: "distinct (map fst (domain_groups es))"
proof (induction es rule: rev_induct)
  case Nil
  show ?case by (simp add: domain_groups_def)
next
  case (snoc e es)
  then show ?case
    by (auto simp: domain_groups_snoc group_append_keys)
qed

lemma map_of_domain_groups:
  "map_of (domain_groups es) d =
     (if d \<in> sender_domain ` set es then Some (filter (\<lambda>e. sender_domain e = d) es) else None)"
proof (induction es rule: rev_induct)
  case Nil
  show ?case by (simp add: domain_groups_def)
next
  case (snoc e es)
  have "filter (\<lambda>x. sender_domain x = d) es = []" if "d \<notin> sender_domain ` set es"
    using that by (auto simp: filter_empty_conv)
  with snoc show ?case
    by (auto simp: domain_groups_snoc map_of_group_append)
qed

lemma domain_groups_entry:
  "(d, v) \<in> set (domain_groups es) \<longleftrightarrow>
     d \<in> sender_domain ` set es \<and> v = filter (\<lambda>e. sender_domain e = d) es"
proof -
  have "(d, v) \<in> set (domain_groups es) \<longleftrightarrow> map_of (domain_groups es) d = Some v"
    using distinct_domain_groups [of es] by simp
  then show ?thesis
    by (auto simp: map_of_domain_groups)
qed

lemma emails_make_clusters:
  "map emails (make_clusters m c g) = map snd (filter (\<lambda>(d, v). m \<le> int (length v)) g)"
  by (induction g arbitrary: c) (auto simp: domain_cluster_def)

lemma ids_make_clusters:
  "map cluster_id (make_clusters m c g) = map (\<lambda>i. c + int i) [0..<length (make_clusters m c g)]"
proof (induction g arbitrary: c)
  case Nil
  show ?case by simp
next
  case (Cons p g)
  obtain d v where p: "p = (d, v)" by (cases p)
  show ?case
  proof (cases "m \<le> int (length v)")
    case True
    have "map (\<lambda>i. c + int i) [0..<Suc n] = c # map (\<lambda>i. c + 1 + int i) [0..<n]" for n
      by (simp add: upt_conv_Cons map_Suc_upt [symmetric] del: upt_Suc)
    with True Cons [of "c + 1"] p show ?thesis
      by (simp add: domain_cluster_def)
  next
    case False
    with Cons [of c] p show ?thesis by simp
  qed
qed

subsection \<open>Members of the clusters\<close>

lemma mset_concat_filters:
  "distinct ks \<Longrightarrow>
     mset (concat (map (\<lambda>k. filter (\<lambda>e. f e = k) es) ks)) = mset (filter (\<lambda>e. f e \<in> set ks) es)"
proof (induction ks)
  case Nil
  show ?case by simp
next
  case (Cons k ks)
  have "mset (filter (\<lambda>e. f e = k) es) + mset (filter (\<lambda>e. f e \<in> set ks) es)
          = mset (filter (\<lambda>e. f e \<in> set (k # ks)) es)"
    using Cons.prems by (induction es) auto
  with Cons show ?case by simp
qed

lemma groups_as_filters:
  "\<forall>(k, v) \<in> set g. v = h k \<Longrightarrow>
     map snd (filter (\<lambda>(k, v). R v) g) = map h (filter (\<lambda>k. R (h k)) (map fst g))"
  by (induction g) auto

lemma members_make_clusters:
  "mset (members (make_clusters m c (domain_groups es))) = mset (filter (reaches_threshold m es) es)"
proof -
  let ?h = "\<lambda>k. filter (\<lambda>e. sender_domain e = k) es"
  let ?Q = "\<lambda>k. m \<le> int (length (?h k))"
  let ?ks = "filter ?Q (map fst (domain_groups es))"
  have "\<forall>(k, v) \<in> set (domain_groups es). v = ?h k"
    by (auto simp: domain_groups_entry)
  then have "map snd (filter (\<lambda>(k, v). m \<le> int (length v)) (domain_groups es)) = map ?h ?ks"
    by (rule groups_as_filters)
  then have "members (make_clusters m c (domain_groups es)) = concat (map ?h ?ks)"
    by (simp add: members_def emails_make_clusters)
  moreover have "distinct ?ks"
    using distinct_domain_groups [of es] by (rule distinct_filter)
  ultimately have "mset (members (make_clusters m c (domain_groups es)))
      = mset (filter (\<lambda>e. sender_domain e \<in> set ?ks) es)"
    by (simp add: mset_concat_filters)
  also have "filter (\<lambda>e. sender_domain e \<in> set ?ks) es = filter (reaches_threshold m es) es"
  proof (rule filter_cong [OF refl])
    fix e assume "e \<in> set es"
    then have "sender_domain e \<in> set (map fst (domain_groups es))"
      by (simp only: domain_groups_keys) simp
    then show "(sender_domain e \<in> set ?ks) = reaches_threshold m es e"
      by (simp add: reaches_threshold_def domain_count_def)
  qed
  finally show ?thesis .
qed

lemma make_clusters_empty_iff:
  "make_clusters m c (domain_groups es) = [] \<longleftrightarrow> \<not> some_group_reaches m es"
proof -
  have "make_clusters m c (domain_groups es) = [] \<longleftrightarrow>
          members (make_clusters m c (domain_groups es)) = []"
  proof
    assume "members (make_clusters m c (domain_groups es)) = []"
    show "make_clusters m c (domain_groups es) = []"
    proof (rule ccontr)
      assume "make_clusters m c (domain_groups es) \<noteq> []"
      then have "map emails (make_clusters m c (domain_groups es)) \<noteq> []" by simp
      then obtain d v where dv: "(d, v) \<in> set (domain_groups es)" "m \<le> int (length v)"
        by (auto simp: emails_make_clusters filter_empty_conv)
      have "v \<noteq> []" using dv(1) by (auto simp: domain_groups_entry filter_empty_conv)
      moreover have "v \<in> set (map emails (make_clusters m c (domain_groups es)))"
        unfolding emails_make_clusters using dv by force
      ultimately show False
        using \<open>members (make_clusters m c (domain_groups es)) = []\<close>
        by (auto simp: members_def)
    qed
  qed (simp add: members_def)
  also have "\<dots> \<longleftrightarrow> mset (members (make_clusters m c (domain_groups es))) = {#}"
    by simp
  also have "\<dots> \<longleftrightarrow> \<not> some_group_reaches m es"
    by (simp only: members_make_clusters)
       (auto simp: some_group_reaches_def list_ex_iff filter_empty_conv)
  finally show ?thesis .
qed

lemma short_input_none_reaches:
  assumes "int (length es) < m"
  shows "\<not> some_group_reaches m es"
proof
  assume "some_group_reaches m es"
  then obtain e where "m \<le> int (domain_count es (sender_domain e))"
    by (auto simp: some_group_reaches_def list_ex_iff reaches_threshold_def)
  moreover have "domain_count es (sender_domain e) \<le> length es"
    by (simp add: domain_count_def)
  ultimately show False using assms by linarith
qed

lemma cluster_emails_cases:
  "cluster_emails m es n =
     (if some_group_reaches m es then make_clusters m 0 (domain_groups es)
      else [create_single_cluster es])"
  using short_input_none_reaches [of es m] make_clusters_empty_iff [of m 0 es]
  by (auto simp: cluster_emails_def rule_based_clustering_def Let_def)

lemma mset_members_cluster_emails:
  "mset (members (cluster_emails m es n)) =
     (if some_group_reaches m es then mset (filter (reaches_threshold m es) es) else mset es)"
  by (simp add: cluster_emails_cases members_make_clusters)
     (simp add: members_def create_single_cluster_def)

subsection \<open>Clusters and groups\<close>

lemma extract_domain_no_at: "CHR ''@'' \<notin> set s \<Longrightarrow> extract_domain s = []"
  by (induction s) auto

lemma domain_cluster_fields:
  "emails (domain_cluster i d v) = v"
  "description (domain_cluster i d v) = ''Emails from '' @ d"
  "cluster_id (domain_cluster i d v) = i"
  by (simp_all add: domain_cluster_def)

lemma make_clusters_sound:
  "c \<in> set (make_clusters m i g) \<Longrightarrow>
     \<exists>d v. (d, v) \<in> set g \<and> m \<le> int (length v) \<and> c = domain_cluster (cluster_id c) d v"
proof (induction g arbitrary: i)
  case Nil
  then show ?case by simp
next
  case (Cons p g)
  obtain d v where p: "p = (d, v)" by (cases p)
  show ?case
  proof (cases "c = domain_cluster i d v \<and> m \<le> int (length v)")
    case True
    then have "c = domain_cluster (cluster_id c) d v"
      by (simp add: domain_cluster_fields)
    with True p show ?thesis by auto
  next
    case False
    with Cons.prems p have "c \<in> set (make_clusters m i g) \<or> c \<in> set (make_clusters m (i + 1) g)"
      by (auto split: if_splits)
    then obtain d' v' where "(d', v') \<in> set g" "m \<le> int (length v')"
      "c = domain_cluster (cluster_id c) d' v'"
      using Cons.IH by blast
    then show ?thesis by auto
  qed
qed

lemma make_clusters_complete:
  "(d, v) \<in> set g \<Longrightarrow> m \<le> int (length v) \<Longrightarrow>
     \<exists>i'. domain_cluster i' d v \<in> set (make_clusters m i g)"
proof (induction g arbitrary: i)
  case Nil
  then show ?case by simp
next
  case (Cons p g)
  obtain d' v' where p: "p = (d', v')" by (cases p)
  show ?case
  proof (cases "p = (d, v)")
    case True
    with Cons.prems show ?thesis by auto
  next
    case False
    with Cons.prems have "(d, v) \<in> set g" by simp
    then have "\<exists>i'. domain_cluster i' d v \<in> set (make_clusters m j g)" for j
      using Cons.IH Cons.prems(2) by blast
    then show ?thesis using p by (cases "m \<le> int (length v')") auto
  qed
qed

lemma group_reaches_some:
  assumes "(d, v) \<in> set (domain_groups es)" and "m \<le> int (length v)"
  shows "some_group_reaches m es"
proof -
  from assms(1) obtain e where "e \<in> set es" "sender_domain e = d"
    and v: "v = filter (\<lambda>e. sender_domain e = d) es"
    by (auto simp: domain_groups_entry)
  with assms(2) have "reaches_threshold m es e"
    by (simp add: reaches_threshold_def domain_count_def)
  with \<open>e \<in> set es\<close> show ?thesis
    by (auto simp: some_group_reaches_def list_ex_iff)
qed

subsection \<open>The claims on the clusterer\<close>

text \<open>
  Claim C1. "Every message of the input belongs to exactly one cluster of the output."
  As stated this fails: once some domain group reaches \<^verbatim>\<open>min_cluster_size\<close>, the messages
  of the smaller groups are in no cluster. In the sample inbox of three messages from
  \<^verbatim>\<open>x.com\<close> and one from \<^verbatim>\<open>y.com\<close>, the fourth message is dropped.
\<close>

theorem message_dropped_counterexample:
  "msg ''4'' ''d@y.com'' \<in> set inbox4 \<and>
   msg ''4'' ''d@y.com'' \<notin> set (members (cluster_emails 3 inbox4 5))"
  by code_simp

text \<open>
  Claim C1, amended. No message is in two clusters, and none is duplicated: a message occurs
  in the clusters as often as in the input when its sender domain reaches the threshold
  or when no group does (the single cluster of all messages is returned), and not at all
  otherwise. For an input without repetitions the members of all clusters are without
  repetitions.
\<close>

theorem message_in_at_most_one_cluster:
  "count (mset (members (cluster_emails m es n))) e =
     (if some_group_reaches m es \<and> \<not> reaches_threshold m es e then 0 else count (mset es) e)
   \<and> (distinct es \<longrightarrow> distinct (members (cluster_emails m es n)))"
proof
  show "count (mset (members (cluster_emails m es n))) e =
     (if some_group_reaches m es \<and> \<not> reaches_threshold m es e then 0 else count (mset es) e)"
    by (simp add: mset_members_cluster_emails mset_filter del: mset_filter [symmetric])
next
  show "distinct es \<longrightarrow> distinct (members (cluster_emails m es n))"
  proof
    assume "distinct es"
    then have df: "distinct (filter (reaches_threshold m es) es)" by simp
    show "distinct (members (cluster_emails m es n))"
    proof (cases "some_group_reaches m es")
      case True
      then have "mset (members (cluster_emails m es n)) = mset (filter (reaches_threshold m es) es)"
        by (simp only: mset_members_cluster_emails if_True)
      with df show ?thesis by (metis mset_eq_imp_distinct_iff)
    next
      case False
      then have "mset (members (cluster_emails m es n)) = mset es"
        by (simp only: mset_members_cluster_emails if_False)
      with \<open>distinct es\<close> show ?thesis by (metis mset_eq_imp_distinct_iff)
    qed
  qed
qed

theorem message_in_at_most_one_cluster_witness:
  "count (mset (members (cluster_emails 3 inbox4 5))) (msg ''1'' ''a@x.com'') = 1 \<and>
   count (mset (members (cluster_emails 3 inbox4 5))) (msg ''4'' ''d@y.com'') = 0 \<and>
   distinct inbox4 \<and> distinct (members (cluster_emails 3 inbox4 5))"
proof -
  have some: "some_group_reaches 3 inbox4" by code_simp
  have r1: "reaches_threshold 3 inbox4 (msg ''1'' ''a@x.com'')" by code_simp
  have r4: "\<not> reaches_threshold 3 inbox4 (msg ''4'' ''d@y.com'')" by code_simp
  have c1: "count (mset inbox4) (msg ''1'' ''a@x.com'') = 1"
    by (simp add: inbox4_def msg_def)
  have d: "distinct inbox4"
    by (simp add: inbox4_def msg_def)
  show ?thesis
    using message_in_at_most_one_cluster [of 3 inbox4 5 "msg ''1'' ''a@x.com''"]
      message_in_at_most_one_cluster [of 3 inbox4 5 "msg ''4'' ''d@y.com''"]
      some r1 r4 c1 d
    by simp
qed

text \<open>
  Claim C2. For an input of at least \<^verbatim>\<open>min_cluster_size\<close> messages: when some domain group
  reaches the threshold, the members of all clusters are exactly the input messages whose
  sender domain occurs at least \<^verbatim>\<open>min_cluster_size\<close> times (as a multiset and as a set), so
  the smaller groups contribute nothing; when no group reaches it, the result is the single
  cluster of all input messages.
\<close>

theorem clusters_cover_threshold_groups:
  assumes "m \<le> int (length es)"
  shows "if some_group_reaches m es
         then mset (members (cluster_emails m es n)) = mset (filter (reaches_threshold m es) es)
            \<and> set (members (cluster_emails m es n)) = {e \<in> set es. reaches_threshold m es e}
         else cluster_emails m es n = [create_single_cluster es]
            \<and> members (cluster_emails m es n) = es"
proof (cases "some_group_reaches m es")
  case True
  then have eq: "mset (members (cluster_emails m es n)) = mset (filter (reaches_threshold m es) es)"
    by (simp add: mset_members_cluster_emails)
  then have "set (members (cluster_emails m es n)) = set (filter (reaches_threshold m es) es)"
    by (rule mset_eq_setD)
  with True eq show ?thesis by simp
next
  case False
  then show ?thesis
    by (simp add: cluster_emails_cases members_def create_single_cluster_def)
qed

theorem clusters_cover_threshold_groups_witness:
  "3 \<le> int (length inbox4) \<and> some_group_reaches 3 inbox4 \<and>
   mset (members (cluster_emails 3 inbox4 5)) = mset (filter (reaches_threshold 3 inbox4) inbox4) \<and>
   2 \<le> int (length inbox5) \<and> \<not> some_group_reaches 3 inbox5 \<and>
   cluster_emails 3 inbox5 5 = [create_single_cluster inbox5]"
proof -
  have l4: "3 \<le> int (length inbox4)" by code_simp
  have s4: "some_group_reaches 3 inbox4" by code_simp
  have l5: "3 \<le> int (length inbox5)" by code_simp
  have s5: "\<not> some_group_reaches 3 inbox5" by code_simp
  show ?thesis
    using clusters_cover_threshold_groups [OF l4, of 5] clusters_cover_threshold_groups [OF l5, of 5]
      l4 l5 s4 s5
    by simp
qed

text \<open>
  Claim C3. The target count has no influence: two calls on the same messages with any two
  target counts return the same list of clusters (number, membership, ids and names).
\<close>

theorem target_count_ignored:
  "cluster_emails m es n1 = cluster_emails m es n2"
  by (simp add: cluster_emails_def)

theorem target_count_ignored_witness:
  "cluster_emails 3 inbox4 5 = cluster_emails 3 inbox4 1"
  by (rule target_count_ignored)

text \<open>
  Claim C7. An input shorter than \<^verbatim>\<open>min_cluster_size\<close> (the empty list included) gives
  exactly one cluster: its members are the input in order, its name is
  "All Messages (N)" with N the input's length, and it has no keywords.
\<close>

theorem too_few_messages_single_cluster:
  assumes "int (length es) < m"
  shows "cluster_emails m es n =
           [\<lparr>cluster_id = 0,
             name = ''All Messages ('' @ str_nat (length es) @ '')'',
             description = ''All '' @ str_nat (length es) @ '' recent emails'',
             emails = es, keywords' = []\<rparr>]"
  using assms by (simp add: cluster_emails_def create_single_cluster_def)

theorem too_few_messages_single_cluster_witness:
  "int (length [msg ''1'' ''a@x.com'', msg ''2'' ''b@x.com'']) < 3 \<and>
   cluster_emails 3 [msg ''1'' ''a@x.com'', msg ''2'' ''b@x.com''] 5 =
      [\<lparr>cluster_id = 0, name = ''All Messages (2)'', description = ''All 2 recent emails'',
        emails = [msg ''1'' ''a@x.com'', msg ''2'' ''b@x.com''], keywords' = []\<rparr>] \<and>
   cluster_emails 3 [] 5 =
      [\<lparr>cluster_id = 0, name = ''All Messages (0)'', description = ''All 0 recent emails'',
        emails = [], keywords' = []\<rparr>]"
  using too_few_messages_single_cluster [of "[msg ''1'' ''a@x.com'', msg ''2'' ''b@x.com'']" 3 5]
    too_few_messages_single_cluster [of "[]" 3 5]
  by (simp add: str_nat.simps digit_char_def)

text \<open>
  Claim C8. Within one call the cluster ids are \<open>0, 1, 2, \<dots>\<close> in the order of the
  returned list, so they are pairwise distinct and strictly increasing from 0; and the
  returned list follows the order in which the groups are produced: its clusters hold, in
  the order of the dictionary, the groups that reach the threshold.
\<close>

theorem cluster_ids_sequential:
  "map cluster_id (cluster_emails m es n) = map int [0..<length (cluster_emails m es n)]
   \<and> distinct (map cluster_id (cluster_emails m es n))
   \<and> (if some_group_reaches m es
       then map emails (cluster_emails m es n)
              = map snd (filter (\<lambda>(d, v). m \<le> int (length v)) (domain_groups es))
       else cluster_emails m es n = [create_single_cluster es])"
proof -
  have ids: "map cluster_id (cluster_emails m es n) = map int [0..<length (cluster_emails m es n)]"
    using ids_make_clusters [of m 0 "domain_groups es"]
    by (simp add: cluster_emails_cases create_single_cluster_def)
  have "distinct (map int [0..<k])" for k
    by (simp add: distinct_map)
  with ids have "distinct (map cluster_id (cluster_emails m es n))" by simp
  with ids show ?thesis
    by (simp add: cluster_emails_cases emails_make_clusters)
qed

theorem cluster_ids_sequential_witness:
  "map cluster_id (cluster_emails 2 inbox5 5) = [0, 1] \<and>
   map description (cluster_emails 2 inbox5 5) = [''Emails from x.com'', ''Emails from y.org'']"
proof -
  have "length (cluster_emails 2 inbox5 5) = 2" by code_simp
  moreover have "[0..<2] = [0, Suc 0]" by (simp add: upt_rec)
  moreover have "map description (cluster_emails 2 inbox5 5)
      = [''Emails from x.com'', ''Emails from y.org'']" by code_simp
  ultimately show ?thesis
    using cluster_ids_sequential [of 2 inbox5 5] by (simp del: upt_Suc)
qed

text \<open>
  Claim C10. A sender without \<^verbatim>\<open>@\<close> has the empty string as its domain, so all such
  messages are in the one group of the empty domain (the messages whose extracted domain
  is empty, kept under the key \<^verbatim>\<open>""\<close> of the dictionary), and that group becomes
  an output cluster exactly when it exists and has at least \<^verbatim>\<open>min_cluster_size\<close> members.
\<close>

theorem empty_domain_group_cluster:
  "(\<forall>e \<in> set es. CHR ''@'' \<notin> set (sender e) \<longrightarrow>
        sender_domain e = [] \<and> e \<in> set (empty_domain_group es))
   \<and> (empty_domain_group es \<noteq> [] \<longrightarrow>
        map_of (domain_groups es) [] = Some (empty_domain_group es))
   \<and> ((\<exists>c \<in> set (cluster_emails m es n).
          description c = ''Emails from '' \<and> emails c = empty_domain_group es)
        \<longleftrightarrow> empty_domain_group es \<noteq> [] \<and> m \<le> int (length (empty_domain_group es)))"
proof (intro conjI)
  show "\<forall>e \<in> set es. CHR ''@'' \<notin> set (sender e) \<longrightarrow>
          sender_domain e = [] \<and> e \<in> set (empty_domain_group es)"
    by (simp add: sender_domain_def empty_domain_group_def extract_domain_no_at)
next
  show "empty_domain_group es \<noteq> [] \<longrightarrow> map_of (domain_groups es) [] = Some (empty_domain_group es)"
    by (force simp: map_of_domain_groups empty_domain_group_def filter_empty_conv)
next
  let ?g = "empty_domain_group es"
  show "(\<exists>c \<in> set (cluster_emails m es n). description c = ''Emails from '' \<and> emails c = ?g)
        \<longleftrightarrow> ?g \<noteq> [] \<and> m \<le> int (length ?g)"
  proof
    assume "\<exists>c \<in> set (cluster_emails m es n). description c = ''Emails from '' \<and> emails c = ?g"
    then obtain c where c: "c \<in> set (cluster_emails m es n)"
      "description c = ''Emails from ''" "emails c = ?g" by blast
    have "description (create_single_cluster es) \<noteq> ''Emails from ''"
      by (simp add: create_single_cluster_def)
    with c have "c \<in> set (make_clusters m 0 (domain_groups es))"
      by (auto simp: cluster_emails_cases split: if_splits)
    then obtain d v where dv: "(d, v) \<in> set (domain_groups es)" "m \<le> int (length v)"
      and "c = domain_cluster (cluster_id c) d v"
      using make_clusters_sound by blast
    then have cf: "emails c = v" "description c = ''Emails from '' @ d"
      by (metis domain_cluster_fields(1), metis domain_cluster_fields(2))
    with c have "d = []" by simp
    with dv(1) have "v = ?g" "?g \<noteq> []"
      by (force simp: domain_groups_entry empty_domain_group_def filter_empty_conv)+
    with dv(2) cf c show "?g \<noteq> [] \<and> m \<le> int (length ?g)" by simp
  next
    assume r: "?g \<noteq> [] \<and> m \<le> int (length ?g)"
    then have "([], ?g) \<in> set (domain_groups es)"
      by (force simp: domain_groups_entry empty_domain_group_def filter_empty_conv)
    moreover from this r have "some_group_reaches m es"
      by (auto intro: group_reaches_some)
    ultimately show "\<exists>c \<in> set (cluster_emails m es n).
        description c = ''Emails from '' \<and> emails c = ?g"
      using r make_clusters_complete [of "[]" ?g "domain_groups es" m 0]
      by (auto simp: cluster_emails_cases domain_cluster_fields intro!: bexI)
  qed
qed

theorem empty_domain_group_cluster_witness:
  "CHR ''@'' \<notin> set (sender (msg ''2'' ''postmaster'')) \<and>
   sender_domain (msg ''2'' ''postmaster'') = [] \<and>
   msg ''2'' ''postmaster'' \<in> set (empty_domain_group local_inbox) \<and>
   map_of (domain_groups local_inbox) [] = Some (empty_domain_group local_inbox) \<and>
   3 \<le> int (length (empty_domain_group local_inbox)) \<and>
   list_ex (\<lambda>c. description c = ''Emails from '' \<and> emails c = empty_domain_group local_inbox)
     (cluster_emails 3 local_inbox 5) \<and>
   \<not> list_ex (\<lambda>c. description c = ''Emails from '' \<and> emails c = empty_domain_group local_inbox)
     (cluster_emails 4 local_inbox 5)"
proof -
  have a: "msg ''2'' ''postmaster'' \<in> set local_inbox" by code_simp
  have b: "CHR ''@'' \<notin> set (sender (msg ''2'' ''postmaster''))" by code_simp
  have c: "empty_domain_group local_inbox \<noteq> []" by code_simp
  have d: "3 \<le> int (length (empty_domain_group local_inbox))" by code_simp
  have e: "\<not> 4 \<le> int (length (empty_domain_group local_inbox))" by code_simp
  show ?thesis
    using empty_domain_group_cluster [of local_inbox 3 5]
      empty_domain_group_cluster [of local_inbox 4 5] a b c d e
    by (auto simp: list_ex_iff)
qed

section \<open>Properties of the Gmail client\<close>

text \<open>
  Claim C4. "Header decoding never raises." The code misses this: \<^verbatim>\<open>errors="ignore"\<close>
  covers undecodable bytes only. For an encoded word with a charset Python does not know,
  the library's \<^verbatim>\<open>decode_header\<close> returns the bytes with that charset and
  \<^verbatim>\<open>bytes.decode\<close> raises \<^verbatim>\<open>LookupError\<close>; \<^verbatim>\<open>_decode_header\<close> catches nothing, so the
  exception leaves it.
\<close>

theorem decode_header_unknown_charset:
  assumes "lib_decode_header lib ''=?foo?q?abc?='' = Inr [(BytesPart ''abc'', Some ''foo'')]"
    and "lib_decode lib ''foo'' ''abc'' = Inl (LookupError ''unknown encoding: foo'')"
  shows "decode_header lib ''=?foo?q?abc?='' = Inl (LookupError ''unknown encoding: foo'')"
  using assms by (simp add: decode_header_def)

theorem decode_header_unknown_charset_witness:
  "decode_header sample_library ''=?foo?q?abc?='' = Inl (LookupError ''unknown encoding: foo'')"
proof -
  have a: "lib_decode_header sample_library ''=?foo?q?abc?=''
             = Inr [(BytesPart ''abc'', Some ''foo'')]"
    by (simp add: sample_library_def)
  have b: "lib_decode sample_library ''foo'' ''abc'' = Inl (LookupError ''unknown encoding: foo'')"
    by (simp add: sample_library_def)
  show ?thesis by (rule decode_header_unknown_charset [OF a b])
qed

text \<open>
  For a limit of at least 1 the loop visits the last \<open>limit\<close> message numbers, newest
  first, and all of them when the mailbox holds fewer.
\<close>

lemma recent_refs_positive_limit:
  assumes "0 < c"
  shows "recent_refs c message_list = rev (drop (length message_list - nat c) message_list)"
    and "length (recent_refs c message_list) = min (nat c) (length message_list)"
  using assms
  by (auto simp: recent_refs_def recent_messages_def slice_from_def Let_def max_def
      nat_diff_distrib nat_add_distrib)

text \<open>
  Claim C9. "\<^verbatim>\<open>listRecent\<close> returns at most \<open>limit\<close> references." The code misses this at
  limit 0: \<^verbatim>\<open>message_list[-0:]\<close> is the whole list, so all three messages of a mailbox
  of three are returned.
\<close>

theorem recent_refs_limit_zero:
  "recent_refs 0 [''1'', ''2'', ''3''] = [''3'', ''2'', ''1''] \<and>
   fetch_recent_emails sample_fetch [''1'', ''2'', ''3''] connected_client 0 =
     Inr [msg ''3'' ''a@x.com'', msg ''2'' ''a@x.com'', msg ''1'' ''a@x.com'']"
  by (simp add: recent_refs_def recent_messages_def slice_from_def fetch_recent_emails_def
      connected_client_def sample_fetch_def msg_def)

section \<open>Properties of the web application\<close>

lemma send_commands_sent:
  "send_commands server conn cs = (conn', None) \<Longrightarrow> conn' = conn\<lparr>sent := sent conn @ cs\<rparr>"
proof (induction cs arbitrary: conn)
  case Nil
  then show ?case by simp
next
  case (Cons a cs)
  then have "send_commands server (conn\<lparr>sent := sent conn @ [a]\<rparr>) cs = (conn', None)"
    by (auto split: option.splits)
  then have "conn' = (conn\<lparr>sent := sent conn @ [a]\<rparr>)\<lparr>sent := sent (conn\<lparr>sent := sent conn @ [a]\<rparr>) @ cs\<rparr>"
    by (rule Cons.IH)
  then show ?case by simp
qed

lemma send_commands_accepted:
  "\<forall>c \<in> set cs. server c = None \<Longrightarrow>
     send_commands server conn cs = (conn\<lparr>sent := sent conn @ cs\<rparr>, None)"
  by (induction cs arbitrary: conn) auto

lemma find_none_iff_id_absent:
  "find (\<lambda>c. cluster_id c = cid) cs = None \<longleftrightarrow> cid \<notin> cluster_id ` set cs"
  by (auto simp: find_None_iff)

lemma filter_distinct_ids_remove1:
  "find (\<lambda>c. cluster_id c = cid) cs = Some target \<Longrightarrow> distinct (map cluster_id cs) \<Longrightarrow>
     filter (\<lambda>c. cluster_id c \<noteq> cid) cs = remove1 target cs"
proof (induction cs)
  case Nil
  then show ?case by simp
next
  case (Cons x cs)
  show ?case
  proof (cases "cluster_id x = cid")
    case True
    with Cons.prems have "target = x" "cid \<notin> cluster_id ` set cs" by auto
    then have "filter (\<lambda>c. cluster_id c \<noteq> cid) cs = cs"
      by (auto simp: filter_id_conv)
    with True \<open>target = x\<close> show ?thesis by simp
  next
    case False
    with Cons.prems have f: "find (\<lambda>c. cluster_id c = cid) cs = Some target"
      and "distinct (map cluster_id cs)" by auto
    then have "filter (\<lambda>c. cluster_id c \<noteq> cid) cs = remove1 target cs"
      by (rule Cons.IH)
    moreover from f have "cluster_id target = cid"
      by (auto simp: find_Some_iff)
    ultimately show ?thesis using False by auto
  qed
qed

text \<open>
  With a connected client, a cluster of the given id and a server that accepts the
  commands, the call succeeds.
\<close>

lemma accepted_archive_succeeds:
  assumes "current_gmail_client st = Some client" and "connection client = Some conn"
    and "find (\<lambda>c. cluster_id c = cid) (current_clusters st) = Some target"
    and "\<forall>c \<in> set (archive_commands (map uid (emails target))). server c = None"
  shows "\<exists>message st'. archive_cluster server cid st = (Success message, st')"
  using assms
  by (simp add: archive_cluster_def archive_emails_def send_commands_accepted Let_def)

text \<open>
  Claim C5. A successful \<^verbatim>\<open>archive_cluster\<close> call has found a cluster with the given id (the
  first one, should several share it), has passed exactly the identifiers of that cluster's
  messages to \<^verbatim>\<open>archive_emails\<close> (the connection has received the commands for these
  identifiers and no others), and has removed from the active set the clusters with that
  id and no other, in place: with pairwise distinct ids, as the clusterer assigns them,
  exactly that cluster. A second call with the same id answers 404 and changes nothing.
\<close>

theorem archive_cluster_success:
  assumes "archive_cluster server cid st = (Success message, st')"
  shows "\<exists>client conn target.
           current_gmail_client st = Some client \<and> connection client = Some conn \<and>
           find (\<lambda>c. cluster_id c = cid) (current_clusters st) = Some target \<and>
           archive_emails server client (map uid (emails target)) =
             (client\<lparr>connection := Some (conn\<lparr>sent := sent conn
                        @ archive_commands (map uid (emails target))\<rparr>)\<rparr>, None) \<and>
           current_gmail_client st' =
             Some (client\<lparr>connection := Some (conn\<lparr>sent := sent conn
                        @ archive_commands (map uid (emails target))\<rparr>)\<rparr>) \<and>
           current_clusters st' = filter (\<lambda>c. cluster_id c \<noteq> cid) (current_clusters st) \<and>
           (distinct (map cluster_id (current_clusters st)) \<longrightarrow>
              current_clusters st' = remove1 target (current_clusters st)) \<and>
           (\<forall>server'. archive_cluster server' cid st' = (Error 404 ''Cluster not found'', st'))"
proof -
  from assms obtain client where client: "current_gmail_client st = Some client"
    by (auto simp: archive_cluster_def split: option.splits)
  from assms client obtain target
    where target: "find (\<lambda>c. cluster_id c = cid) (current_clusters st) = Some target"
    by (auto simp: archive_cluster_def split: option.splits)
  let ?uids = "map uid (emails target)"
  from assms client target obtain client' where
    arch: "archive_emails server client ?uids = (client', None)"
    and st': "st' = st\<lparr>current_gmail_client := Some client',
                current_clusters := filter (\<lambda>c. cluster_id c \<noteq> cid) (current_clusters st)\<rparr>"
    by (auto simp: archive_cluster_def Let_def split: prod.splits option.splits)
  from arch obtain conn where conn: "connection client = Some conn"
    by (auto simp: archive_emails_def split: option.splits)
  from arch conn obtain conn' where
    sc: "send_commands server conn (archive_commands ?uids) = (conn', None)"
    and c': "client' = client\<lparr>connection := Some conn'\<rparr>"
    by (auto simp: archive_emails_def split: prod.splits option.splits)
  from sc have conn': "conn' = conn\<lparr>sent := sent conn @ archive_commands ?uids\<rparr>"
    by (rule send_commands_sent)
  have absent: "find (\<lambda>c. cluster_id c = cid) (current_clusters st') = None"
    by (simp add: st' find_None_iff)
  have cl: "current_gmail_client st' = Some client'"
    by (simp add: st')
  have again: "archive_cluster server' cid st' = (Error 404 ''Cluster not found'', st')" for server'
    by (simp add: archive_cluster_def absent cl)
  have "distinct (map cluster_id (current_clusters st)) \<longrightarrow>
          current_clusters st' = remove1 target (current_clusters st)"
    using filter_distinct_ids_remove1 [OF target] by (simp add: st')
  with client conn target arch c' conn' again show ?thesis
    by (simp add: st')
qed

theorem archive_cluster_success_witness:
  "fst (archive_cluster accepting_server 1 connected_state) =
     Success (''Archived 3 emails from '' @ [CHR 0x27] @ ''Y.Org (3)'' @ [CHR 0x27]) \<and>
   map cluster_id (current_clusters (snd (archive_cluster accepting_server 1 connected_state))) = [0, 2] \<and>
   fst (archive_cluster accepting_server 1 (snd (archive_cluster accepting_server 1 connected_state)))
     = Error 404 ''Cluster not found''"
proof -
  let ?message = "''Archived 3 emails from '' @ [CHR 0x27] @ ''Y.Org (3)'' @ [CHR 0x27]"
  let ?st' = "snd (archive_cluster accepting_server 1 connected_state)"
  have s: "fst (archive_cluster accepting_server 1 connected_state) = Success ?message"
    by code_simp
  then have ok: "archive_cluster accepting_server 1 connected_state = (Success ?message, ?st')"
    by (simp add: prod_eq_iff)
  have ids: "map cluster_id (filter (\<lambda>c. cluster_id c \<noteq> 1) (current_clusters connected_state))
      = [0, 2]"
    by code_simp
  from archive_cluster_success [OF ok]
  have "current_clusters ?st'
          = filter (\<lambda>c. cluster_id c \<noteq> 1) (current_clusters connected_state)"
    and "archive_cluster accepting_server 1 ?st' = (Error 404 ''Cluster not found'', ?st')"
    by blast+
  with ids s show ?thesis
    by (simp del: append.simps)
qed

text \<open>
  Claim C6. "An id that is not in the active set gives the not-found error." As stated this
  fails: the check for a Gmail client comes first, so without a client (the state after a
  demo login) the answer is 400 "Not connected to Gmail", not 404.
\<close>

theorem unknown_id_without_client_counterexample:
  "7 \<notin> cluster_id ` set (current_clusters demo_state) \<and>
   fst (archive_cluster accepting_server 7 demo_state) \<noteq> Error 404 ''Cluster not found''"
  by (simp add: demo_state_def sample_clusters_def domain_cluster_def archive_cluster_def)

text \<open>
  Claim C6, amended. For an id that is not in the active set, the call answers 404 when a
  Gmail client is present and 400 when none is; in both cases the state is unchanged: no
  cluster is removed or modified, and nothing is sent to the server.
\<close>

theorem archive_unknown_cluster:
  assumes "cid \<notin> cluster_id ` set (current_clusters st)"
  shows "archive_cluster server cid st =
           (case current_gmail_client st of
              None \<Rightarrow> Error 400 ''Not connected to Gmail''
            | Some client \<Rightarrow> Error 404 ''Cluster not found'',
            st)"
  using assms
  by (simp add: archive_cluster_def find_none_iff_id_absent [symmetric] split: option.splits)

theorem archive_unknown_cluster_witness:
  "7 \<notin> cluster_id ` set (current_clusters connected_state) \<and>
   archive_cluster accepting_server 7 connected_state =
     (Error 404 ''Cluster not found'', connected_state) \<and>
   archive_cluster accepting_server 7 demo_state =
     (Error 400 ''Not connected to Gmail'', demo_state)"
proof -
  have a: "7 \<notin> cluster_id ` set (current_clusters connected_state)"
    by (simp add: connected_state_def sample_clusters_def domain_cluster_def)
  have b: "7 \<notin> cluster_id ` set (current_clusters demo_state)"
    by (simp add: demo_state_def sample_clusters_def domain_cluster_def)
  show ?thesis
    using archive_unknown_cluster [OF a, of accepting_server]
      archive_unknown_cluster [OF b, of accepting_server] a
    by (simp add: connected_state_def demo_state_def)
qed

end
